theory Spec2Isabelle
  imports Complex_Main "HOL-Library.Sublist"
begin

section \<open>The portfolio optimizer script (app.py)\<close>

text \<open>
  app.py is a single Streamlit script: it reads three sidebar widgets, and when the
  button is pressed it downloads prices, fills gaps, estimates returns and covariance,
  builds an \<^verbatim>\<open>EfficientFrontier\<close> with two bound constraints, calls one of three
  optimisation methods, cleans the weights and renders the results; one
  \<^verbatim>\<open>try/except Exception\<close> around all of it turns an exception into an error message.

  The script's own code is modelled as it is written. What it calls in yfinance,
  PyPortfolioOpt and pandas arithmetic is not part of the script: those calls are the
  fields of the record \<open>lib\<close>, each returning a result or raising. The run of a request
  is a list of events: the library calls made (with their arguments) and the widgets
  rendered, in order. A rendered widget carries the values it shows, not their
  formatting as text. The static parts of the page (title, sidebar labels, footer) are
  the same on every run and are left out.
\<close>

subsection \<open>Values\<close>

text \<open>
  A Python float as the script sees it: the script does no arithmetic of its own on
  prices, weights or metrics, so only the kind of value is kept apart. \<open>NaN\<close> is what
  pandas treats as a missing observation.
\<close>

datatype pyfloat = Num real | PInf | NInf | NaN

definition isna :: "pyfloat \<Rightarrow> bool" where
  "isna x = (x = NaN)"

text \<open>A price table (\<^verbatim>\<open>data['Close']\<close>): its columns in order, one per asset, each a
  series over the common date index.\<close>

type_synonym column = "pyfloat list"
type_synonym table = "(string \<times> column) list"

text \<open>An exception, kept by its message \<^verbatim>\<open>str(e)\<close>.\<close>

datatype exn = Exn string

subsection \<open>Sidebar input (lines 18 to 23)\<close>

text \<open>
  \<^verbatim>\<open>tickers = [ticker.strip().upper() for ticker in tickers_input.split(',')]\<close>

  Strings are lists of 8-bit characters; the model is of ASCII text (ticker symbols).
  \<open>isspace\<close> is Python's whitespace within ASCII: tab to carriage return (9 to 13), the
  four separators 28 to 31, and the space. \<open>upper\<close> maps the letters a to z to A to Z.
\<close>

definition isspace :: "char \<Rightarrow> bool" where
  "isspace c = (let n = (of_char c :: nat) in (9 \<le> n \<and> n \<le> 13) \<or> (28 \<le> n \<and> n \<le> 32))"

definition islower :: "char \<Rightarrow> bool" where
  "islower c = (let n = (of_char c :: nat) in 97 \<le> n \<and> n \<le> 122)"

text \<open>\<^verbatim>\<open>s.split(',')\<close>: the pieces between commas; never the empty list.\<close>

fun split_comma :: "string \<Rightarrow> string list" where
  "split_comma [] = [[]]"
| "split_comma (c # cs) =
     (if c = CHR '','' then [] # split_comma cs
      else (case split_comma cs of [] \<Rightarrow> [[c]] | t # ts \<Rightarrow> (c # t) # ts))"

text \<open>\<^verbatim>\<open>','.join(parts)\<close>, the inverse the splitting is measured against.\<close>

fun join_comma :: "string list \<Rightarrow> string" where
  "join_comma [] = []"
| "join_comma [t] = t"
| "join_comma (t # ts) = t @ CHR '','' # join_comma ts"

definition strip :: "string \<Rightarrow> string" where
  "strip s = rev (dropWhile isspace (rev (dropWhile isspace s)))"

definition to_upper :: "char \<Rightarrow> char" where
  "to_upper c = (if islower c then char_of ((of_char c :: nat) - 32) else c)"

definition upper :: "string \<Rightarrow> string" where
  "upper s = map to_upper s"

definition process_tickers :: "string \<Rightarrow> string list" where
  "process_tickers tickers_input = map (\<lambda>ticker. upper (strip ticker)) (split_comma tickers_input)"

text \<open>\<^verbatim>\<open>st.sidebar.slider("Max % per Stock", 10, 100, 40)\<close>: an integer the widget keeps
  between 10 and 100.\<close>

definition slider_range :: "int \<Rightarrow> bool" where
  "slider_range max_weight = (10 \<le> max_weight \<and> max_weight \<le> 100)"

text \<open>\<^verbatim>\<open>st.sidebar.select_slider("Risk Level", options=["Low", "Medium", "High"])\<close>.\<close>

definition risk_options :: "string list" where
  "risk_options = [''Low'', ''Medium'', ''High'']"

subsection \<open>Gap filling (lines 32 and 33)\<close>

text \<open>
  \<^verbatim>\<open>stock_data.ffill(inplace=True)\<close> carries the last valid observation of a column
  forward over the missing entries after it; \<^verbatim>\<open>stock_data.bfill(inplace=True)\<close> carries
  the next valid observation backward. Both work down each column and leave an entry
  with no valid observation on that side as it is.
\<close>

fun ffill_from :: "pyfloat option \<Rightarrow> column \<Rightarrow> column" where
  "ffill_from last_valid [] = []"
| "ffill_from last_valid (x # xs) =
     (if isna x
      then (case last_valid of None \<Rightarrow> x | Some v \<Rightarrow> v) # ffill_from last_valid xs
      else x # ffill_from (Some x) xs)"

definition ffill :: "column \<Rightarrow> column" where
  "ffill xs = ffill_from None xs"

fun bfill :: "column \<Rightarrow> column" where
  "bfill [] = []"
| "bfill (x # xs) =
     (let filled = bfill xs
      in (if isna x then (case filled of [] \<Rightarrow> x | next_valid # _ \<Rightarrow> next_valid) else x) # filled)"

definition ffill_table :: "table \<Rightarrow> table" where
  "ffill_table t = map (\<lambda>(name, col). (name, ffill col)) t"

definition bfill_table :: "table \<Rightarrow> table" where
  "bfill_table t = map (\<lambda>(name, col). (name, bfill col)) t"

subsection \<open>The optimiser object (lines 40 to 49)\<close>

text \<open>The two constraints are the lambdas \<^verbatim>\<open>w >= 0\<close> and \<^verbatim>\<open>w <= max_weight/100\<close>,
  comparisons of the whole weight vector with a scalar.\<close>

datatype constraint = Lower real | Upper real

fun holds :: "constraint \<Rightarrow> real list \<Rightarrow> bool" where
  "holds (Lower a) w = list_all (\<lambda>x. a \<le> x) w"
| "holds (Upper b) w = list_all (\<lambda>x. x \<le> b) w"

text \<open>The three optimisation methods of the library, each called with its defaults.\<close>

datatype objective = MinVolatility | MaxSharpe | MaxQuadraticUtility

type_synonym returns = "(string \<times> pyfloat) list"
type_synonym cov = "pyfloat list list"

record frontier =
  ef_mu :: returns
  ef_S :: cov
  ef_constraints :: "constraint list"
  ef_weights :: "pyfloat list option"

definition new_frontier :: "returns \<Rightarrow> cov \<Rightarrow> frontier" where
  "new_frontier mu S = \<lparr>ef_mu = mu, ef_S = S, ef_constraints = [], ef_weights = None\<rparr>"

definition add_constraint :: "constraint \<Rightarrow> frontier \<Rightarrow> frontier" where
  "add_constraint c ef = ef\<lparr>ef_constraints := ef_constraints ef @ [c]\<rparr>"

definition upper_bound :: "int \<Rightarrow> real" where
  "upper_bound max_weight = real_of_int max_weight / 100"

text \<open>Lines 40 to 42: the object with its two bound constraints, not yet solved.\<close>

definition bounded_frontier :: "returns \<Rightarrow> cov \<Rightarrow> int \<Rightarrow> frontier" where
  "bounded_frontier mu S max_weight =
     add_constraint (Upper (upper_bound max_weight)) (add_constraint (Lower 0) (new_frontier mu S))"

definition choose_objective :: "string \<Rightarrow> objective" where
  "choose_objective risk_level =
     (if risk_level = ''Low'' then MinVolatility
      else if risk_level = ''High'' then MaxSharpe
      else MaxQuadraticUtility)"

subsection \<open>The libraries the script calls\<close>

text \<open>
  \<^item> \<open>download\<close>: \<^verbatim>\<open>yf.download(tickers, period="5y", auto_adjust=True)['Close']\<close>
  \<^item> \<open>mean_historical_return\<close>, \<open>sample_cov\<close>: the two estimators
  \<^item> \<open>efficient_frontier\<close>: what the constructor \<^verbatim>\<open>EfficientFrontier(mu, S)\<close> checks
  \<^item> \<open>solve\<close>: \<^verbatim>\<open>ef.min_volatility()\<close>, \<^verbatim>\<open>ef.max_sharpe()\<close> or
    \<^verbatim>\<open>ef.max_quadratic_utility()\<close>, returning the raw weights it stores in the object
  \<^item> \<open>clean_weights\<close>, \<open>portfolio_performance\<close>: the two methods read after solving
  \<^item> \<open>normalize\<close>: \<^verbatim>\<open>stock_data / stock_data.iloc[0] * 100\<close>
\<close>

record lib =
  download :: "string list \<Rightarrow> exn + table"
  mean_historical_return :: "table \<Rightarrow> exn + returns"
  sample_cov :: "table \<Rightarrow> exn + cov"
  efficient_frontier :: "returns \<Rightarrow> cov \<Rightarrow> exn + unit"
  solve :: "objective \<Rightarrow> frontier \<Rightarrow> exn + pyfloat list"
  clean_weights :: "frontier \<Rightarrow> exn + (string \<times> pyfloat) list"
  portfolio_performance :: "frontier \<Rightarrow> exn + pyfloat \<times> pyfloat \<times> pyfloat"
  normalize :: "table \<Rightarrow> exn + table"

subsection \<open>Events of a run\<close>

datatype event =
    CallDownload "string list"
  | CallMeanHistoricalReturn table
  | CallSampleCov table
  | CallEfficientFrontier returns cov
  | CallSolve objective frontier
  | CallCleanWeights frontier
  | CallPortfolioPerformance frontier
  | CallNormalize table
  | Subheader string
  | WeightsTable "(string \<times> pyfloat) list"
  | PieChart "(string \<times> pyfloat) list"
  | MetricsTable pyfloat pyfloat pyfloat
  | LineChart table
  | ErrorMessage string





fun solver_calls :: "event list \<Rightarrow> (objective \<times> frontier) list" where
  "solver_calls [] = []"
| "solver_calls (CallSolve obj ef # tr) = (obj, ef) # solver_calls tr"
| "solver_calls (_ # tr) = solver_calls tr"

subsection \<open>The request (the body of the try block, lines 29 to 92)\<close>

text \<open>A step of the block ends in a value or an exception and has logged its events;
  an exception ends the block with what was logged so far. A library call may raise;
  rendering a widget is taken not to.\<close>

type_synonym 'a step = "(exn + 'a) \<times> event list"

definition call :: "event \<Rightarrow> exn + 'a \<Rightarrow> 'a step" where
  "call ev result = (result, [ev])"

definition render :: "event list \<Rightarrow> unit step" where
  "render evs = (Inr (), evs)"

definition and_then :: "'a step \<Rightarrow> ('a \<Rightarrow> 'b step) \<Rightarrow> 'b step" where
  "and_then m f =
     (case m of
        (Inl e, tr) \<Rightarrow> (Inl e, tr)
      | (Inr x, tr) \<Rightarrow> (case f x of (r, tr') \<Rightarrow> (r, tr @ tr')))"

text \<open>Lines 56 to 71: the allocation table and the pie chart.\<close>

definition col1 :: "(string \<times> pyfloat) list \<Rightarrow> unit step" where
  "col1 weights =
     render [Subheader ''Optimal Portfolio Allocation'', WeightsTable weights, PieChart weights]"

text \<open>Lines 73 to 92: the metrics and the growth chart.\<close>

definition col2 :: "lib \<Rightarrow> frontier \<Rightarrow> table \<Rightarrow> unit step" where
  "col2 L ef stock_data =
     and_then (call (CallPortfolioPerformance ef) (portfolio_performance L ef))
       (\<lambda>(expected_return, expected_volatility, sharpe_ratio).
     and_then (render [Subheader ''Expected Performance (Annualized)'',
                       MetricsTable expected_return expected_volatility sharpe_ratio,
                       Subheader ''Historical Performance''])
       (\<lambda>_.
     and_then (call (CallNormalize stock_data) (normalize L stock_data))
       (\<lambda>normalized_prices.
     render [LineChart normalized_prices])))"

definition request :: "lib \<Rightarrow> string list \<Rightarrow> string \<Rightarrow> int \<Rightarrow> unit step" where
  "request L tickers risk_level max_weight =
     and_then (call (CallDownload tickers) (download L tickers))
       (\<lambda>data.
     let stock_data = bfill_table (ffill_table data) in
     and_then (call (CallMeanHistoricalReturn stock_data) (mean_historical_return L stock_data))
       (\<lambda>mu.
     and_then (call (CallSampleCov stock_data) (sample_cov L stock_data))
       (\<lambda>S.
     and_then (call (CallEfficientFrontier mu S) (efficient_frontier L mu S))
       (\<lambda>_.
     let ef = bounded_frontier mu S max_weight;
         objective = choose_objective risk_level in
     and_then (call (CallSolve objective ef) (solve L objective ef))
       (\<lambda>w.
     let ef = ef\<lparr>ef_weights := Some w\<rparr> in
     and_then (call (CallCleanWeights ef) (clean_weights L ef))
       (\<lambda>weights.
     and_then (col1 weights)
       (\<lambda>_.
     col2 L ef stock_data)))))))"

text \<open>The script: nothing happens until the button is pressed; the except clause
  (lines 94 and 95) renders the message of whatever was raised.\<close>

definition app :: "lib \<Rightarrow> string \<Rightarrow> string \<Rightarrow> int \<Rightarrow> bool \<Rightarrow> event list" where
  "app L tickers_input risk_level max_weight pressed =
     (if pressed
      then (case request L (process_tickers tickers_input) risk_level max_weight of
              (Inl (Exn msg), tr) \<Rightarrow> tr @ [ErrorMessage (''An error occurred: '' @ msg)]
            | (Inr _, tr) \<Rightarrow> tr)
      else [])"

subsection \<open>The library's weight cleaning\<close>


subsection \<open>A library with fixed answers\<close>

text \<open>The concrete runs below need concrete libraries. \<open>canned\<close> answers the download
  with a given table, the solver, \<^verbatim>\<open>clean_weights\<close> and \<^verbatim>\<open>portfolio_performance\<close> with
  given results, and lets the remaining calls succeed.\<close>

definition canned ::
  "table \<Rightarrow> exn + pyfloat list \<Rightarrow> exn + (string \<times> pyfloat) list
     \<Rightarrow> exn + pyfloat \<times> pyfloat \<times> pyfloat \<Rightarrow> lib" where
  "canned data raw cleaned performance =
     \<lparr>download = (\<lambda>_. Inr data),
      mean_historical_return = (\<lambda>t. Inr (map (\<lambda>(name, _). (name, Num 0)) t)),
      sample_cov = (\<lambda>_. Inr []),
      efficient_frontier = (\<lambda>_ _. Inr ()),
      solve = (\<lambda>_ _. raw),
      clean_weights = (\<lambda>_. cleaned),
      portfolio_performance = (\<lambda>_. performance),
      normalize = (\<lambda>t. Inr t)\<rparr>"

section \<open>Properties\<close>

lemma split_comma_not_Nil: "split_comma s \<noteq> []"
  by (induction s) (auto split: list.splits)

subsection \<open>Splitting, trimming and upper-casing\<close>


lemma length_split_comma: "length (split_comma s) = Suc (count_list s CHR '','')"
  by (induction s) (auto split: list.splits)

lemma split_comma_no_comma: "t \<in> set (split_comma s) \<Longrightarrow> CHR '','' \<notin> set t"
  by (induction s arbitrary: t) (auto split: list.splits if_splits)

lemma join_split_comma: "join_comma (split_comma s) = s"
proof (induction s)
  case Nil
  show ?case by simp
next
  case (Cons c cs)
  obtain t ts where ts: "split_comma cs = t # ts"
    using split_comma_not_Nil [of cs] by (cases "split_comma cs") auto
  show ?case
  proof (cases "c = CHR '',''")
    case True
    with Cons ts show ?thesis by simp
  next
    case False
    with Cons ts show ?thesis by (cases ts) auto
  qed
qed

lemma strip_decomp:
  "\<exists>l r. t = l @ strip t @ r \<and> list_all isspace l \<and> list_all isspace r"
proof -
  let ?a = "takeWhile isspace t" and ?b = "dropWhile isspace t"
  let ?r = "rev (takeWhile isspace (rev ?b))"
  have "?b = strip t @ ?r"
    unfolding strip_def
    by (metis rev_append rev_rev_ident takeWhile_dropWhile_id)
  then have "t = ?a @ strip t @ ?r"
    by (metis takeWhile_dropWhile_id)
  moreover have "list_all isspace ?a"
    unfolding list_all_iff using set_takeWhileD by fastforce
  moreover have "list_all isspace ?r"
    unfolding list_all_iff set_rev using set_takeWhileD by fastforce
  ultimately show ?thesis by blast
qed

lemma strip_ends:
  "strip t = [] \<or> (\<not> isspace (hd (strip t)) \<and> \<not> isspace (last (strip t)))"
proof (cases "strip t = []")
  case True then show ?thesis by simp
next
  case False
  let ?b = "dropWhile isspace t"
  let ?c = "dropWhile isspace (rev ?b)"
  have c: "?c \<noteq> []" using False by (simp add: strip_def)
  then have hc: "\<not> isspace (hd ?c)" by (rule hd_dropWhile)
  have l: "last (strip t) = hd ?c" using c by (simp add: strip_def last_rev)
  have b: "?b \<noteq> []"
    using c by (metis dropWhile.simps(1) rev.simps(1))
  then have hb: "\<not> isspace (hd ?b)" by (rule hd_dropWhile)
  have "?b = rev ?c @ rev (takeWhile isspace (rev ?b))"
    by (metis rev_append rev_rev_ident takeWhile_dropWhile_id)
  then have "hd ?b = hd (rev ?c)" using c by (metis hd_append2 rev_is_Nil_conv)
  then have "\<not> isspace (hd (strip t))" using hb by (simp add: strip_def)
  with l hc show ?thesis by simp
qed

lemma to_upper_not_lower: "\<not> islower (to_upper c)"
  by (auto simp: to_upper_def islower_def Let_def)

lemma to_upper_idem: "to_upper (to_upper c) = to_upper c"
  using to_upper_not_lower [of c] by (simp add: to_upper_def)

lemma to_upper_comma: "to_upper c = CHR '','' \<longleftrightarrow> c = CHR '',''"
proof (cases "islower c")
  case False
  then show ?thesis by (simp add: to_upper_def)
next
  case True
  then have n: "97 \<le> (of_char c :: nat)" "(of_char c :: nat) \<le> 122"
    by (simp_all add: islower_def Let_def)
  have "to_upper c \<noteq> CHR '',''"
  proof
    assume "to_upper c = CHR '',''"
    then have "(of_char (to_upper c) :: nat) = of_char CHR '',''" by simp
    with True n show False by (simp add: to_upper_def)
  qed
  moreover have "c \<noteq> CHR '',''" using n by auto
  ultimately show ?thesis by simp
qed

lemma isspace_to_upper: "isspace (to_upper c) = isspace c"
  by (auto simp: to_upper_def islower_def isspace_def Let_def)

lemma upper_idem: "upper (upper s) = upper s"
  by (simp add: upper_def to_upper_idem)

lemma split_comma_upper: "split_comma (upper s) = map upper (split_comma s)"
  by (induction s) (auto simp: upper_def to_upper_comma split: list.splits)

lemma dropWhile_isspace_upper: "dropWhile isspace (upper s) = upper (dropWhile isspace s)"
  by (induction s) (auto simp: upper_def isspace_to_upper)

lemma strip_upper: "strip (upper s) = upper (strip s)"
  by (simp add: strip_def dropWhile_isspace_upper) (simp add: upper_def rev_map dropWhile_isspace_upper [unfolded upper_def])

lemma process_tickers_upper: "process_tickers (upper s) = process_tickers s"
  by (simp add: process_tickers_def split_comma_upper strip_upper upper_idem)

lemma process_tickers_case_insensitive:
  "upper s = upper s' \<Longrightarrow> process_tickers s = process_tickers s'"
  by (metis process_tickers_upper)

lemma process_tickers_no_lower:
  "t \<in> set (process_tickers s) \<Longrightarrow> c \<in> set t \<Longrightarrow> \<not> islower c"
  by (auto simp: process_tickers_def upper_def to_upper_not_lower)

subsection \<open>Forward and backward fill of one column\<close>


lemma length_ffill_from: "length (ffill_from v xs) = length xs"
  by (induction xs arbitrary: v) auto

lemma length_bfill: "length (bfill xs) = length xs"
  by (induction xs) (auto simp: Let_def)

lemma ffill_from_Some: "\<not> isna v \<Longrightarrow> y \<in> set (ffill_from (Some v) xs) \<Longrightarrow> \<not> isna y"
  by (induction xs arbitrary: v) (auto split: if_splits)

lemma ffill_from_None:
  "ffill_from None xs = takeWhile isna xs @ ffill_from None (dropWhile isna xs)"
  by (induction xs) auto

lemma ffill_from_None_valid:
  "\<not> isna x \<Longrightarrow> y \<in> set (ffill_from None (x # xs)) \<Longrightarrow> \<not> isna y"
  using ffill_from_Some [of x y xs] by auto

lemma ffill_all_na: "\<forall>x\<in>set xs. isna x \<Longrightarrow> ffill xs = xs"
  unfolding ffill_def by (induction xs) auto

lemma bfill_all_na: "\<forall>x\<in>set xs. isna x \<Longrightarrow> bfill xs = xs"
  by (induction xs) (auto simp: Let_def isna_def split: list.splits)

lemma bfill_valid: "\<forall>x\<in>set xs. \<not> isna x \<Longrightarrow> bfill xs = xs"
  by (induction xs) (auto simp: Let_def)

lemma bfill_na_prefix:
  "\<forall>x\<in>set ns. isna x \<Longrightarrow> ys \<noteq> [] \<Longrightarrow> \<forall>y\<in>set ys. \<not> isna y \<Longrightarrow>
     bfill (ns @ ys) = replicate (length ns) (hd ys) @ ys"
proof (induction ns)
  case Nil
  then show ?case by (simp add: bfill_valid)
next
  case (Cons n ns)
  then have "bfill (ns @ ys) = replicate (length ns) (hd ys) @ ys" by simp
  moreover have "isna n" using Cons.prems by simp
  ultimately show ?case using Cons.prems(2)
    by (cases ns; cases ys) (simp_all add: Let_def)
qed

lemma fill_no_na:
  assumes "\<exists>x\<in>set col. \<not> isna x"
  shows "\<forall>y\<in>set (bfill (ffill col)). \<not> isna y"
proof -
  let ?ns = "takeWhile isna col" and ?rest = "dropWhile isna col"
  have rest: "?rest \<noteq> []" using assms by auto
  then obtain x xs where x: "?rest = x # xs" by (cases ?rest) auto
  have nx: "\<not> isna x" using hd_dropWhile [OF rest] x by simp
  let ?ys = "ffill_from None (x # xs)"
  have ys: "\<forall>y\<in>set ?ys. \<not> isna y" using ffill_from_None_valid [OF nx] by blast
  have ne: "?ys \<noteq> []" using nx by simp
  have ns: "\<forall>n\<in>set ?ns. isna n" by (meson set_takeWhileD)
  have "ffill col = ?ns @ ?ys" unfolding ffill_def using ffill_from_None [of col] x by simp
  then have "bfill (ffill col) = replicate (length ?ns) (hd ?ys) @ ?ys"
    using bfill_na_prefix [OF ns ne ys] by simp
  moreover have "\<not> isna (hd ?ys)" using ys ne by (meson hd_in_set)
  ultimately show ?thesis using ys by auto
qed

lemma fill_all_na: "\<forall>x\<in>set col. isna x \<Longrightarrow> bfill (ffill col) = col"
  by (simp add: ffill_all_na bfill_all_na)

lemma ffill_from_keeps: "i < length xs \<Longrightarrow> \<not> isna (xs ! i) \<Longrightarrow> ffill_from v xs ! i = xs ! i"
  by (induction xs arbitrary: v i) (auto simp: nth_Cons split: nat.splits)

lemma bfill_keeps: "i < length xs \<Longrightarrow> \<not> isna (xs ! i) \<Longrightarrow> bfill xs ! i = xs ! i"
  by (induction xs arbitrary: i) (auto simp: nth_Cons Let_def split: nat.splits)

lemma fill_keeps: "i < length col \<Longrightarrow> \<not> isna (col ! i) \<Longrightarrow> bfill (ffill col) ! i = col ! i"
  by (simp add: bfill_keeps ffill_from_keeps ffill_def length_ffill_from)

subsection \<open>The request, stage by stage\<close>


lemma and_then_call_Inl: "and_then (call ev (Inl e)) f = (Inl e, [ev])"
  by (simp add: and_then_def call_def)

lemma and_then_call_Inr: "and_then (call ev (Inr x)) f = (fst (f x), ev # snd (f x))"
  by (simp add: and_then_def call_def split: prod.splits)

lemma and_then_render: "and_then (render evs) f = (fst (f ()), evs @ snd (f ()))"
  by (simp add: and_then_def render_def split: prod.splits)

lemma fst_render: "fst (render evs) = Inr ()"
  by (simp add: render_def)

lemma snd_render: "snd (render evs) = evs"
  by (simp add: render_def)

lemmas step_simps = and_then_call_Inl and_then_call_Inr and_then_render fst_render snd_render

text \<open>The block written out: one branch for each place where it can end.\<close>

lemma col2_unfold:
  "col2 L ef stock_data =
     (case portfolio_performance L ef of
        Inl e \<Rightarrow> (Inl e, [CallPortfolioPerformance ef])
      | Inr (r, v, s) \<Rightarrow>
     (case normalize L stock_data of
        Inl e \<Rightarrow> (Inl e, [CallPortfolioPerformance ef,
                           Subheader ''Expected Performance (Annualized)'', MetricsTable r v s,
                           Subheader ''Historical Performance'', CallNormalize stock_data])
      | Inr normalized_prices \<Rightarrow>
          (Inr (), [CallPortfolioPerformance ef,
                    Subheader ''Expected Performance (Annualized)'', MetricsTable r v s,
                    Subheader ''Historical Performance'', CallNormalize stock_data,
                    LineChart normalized_prices])))"
  by (simp add: col2_def step_simps split: sum.splits prod.splits)

lemma bounded_frontier_eq:
  "bounded_frontier mu S max_weight =
     \<lparr>ef_mu = mu, ef_S = S, ef_constraints = [Lower 0, Upper (upper_bound max_weight)],
      ef_weights = None\<rparr>"
  by (simp add: bounded_frontier_def add_constraint_def new_frontier_def)

lemma request_unfold:
  "request L tickers risk_level max_weight =
     (case download L tickers of
        Inl e \<Rightarrow> (Inl e, [CallDownload tickers])
      | Inr data \<Rightarrow>
     (let stock_data = bfill_table (ffill_table data) in
      case mean_historical_return L stock_data of
        Inl e \<Rightarrow> (Inl e, [CallDownload tickers, CallMeanHistoricalReturn stock_data])
      | Inr mu \<Rightarrow>
     (case sample_cov L stock_data of
        Inl e \<Rightarrow> (Inl e, [CallDownload tickers, CallMeanHistoricalReturn stock_data,
                           CallSampleCov stock_data])
      | Inr S \<Rightarrow>
     (case efficient_frontier L mu S of
        Inl e \<Rightarrow> (Inl e, [CallDownload tickers, CallMeanHistoricalReturn stock_data,
                           CallSampleCov stock_data, CallEfficientFrontier mu S])
      | Inr _ \<Rightarrow>
     (let ef = bounded_frontier mu S max_weight;
          objective = choose_objective risk_level;
          before = [CallDownload tickers, CallMeanHistoricalReturn stock_data,
                    CallSampleCov stock_data, CallEfficientFrontier mu S,
                    CallSolve objective ef] in
      case solve L objective ef of
        Inl e \<Rightarrow> (Inl e, before)
      | Inr w \<Rightarrow>
     (let ef' = ef\<lparr>ef_weights := Some w\<rparr> in
      case clean_weights L ef' of
        Inl e \<Rightarrow> (Inl e, before @ [CallCleanWeights ef'])
      | Inr weights \<Rightarrow>
          (fst (col2 L ef' stock_data),
           before @ [CallCleanWeights ef', Subheader ''Optimal Portfolio Allocation'',
                     WeightsTable weights, PieChart weights] @ snd (col2 L ef' stock_data))))))))"
  by (simp add: request_def step_simps Let_def col1_def bounded_frontier_def split: sum.splits)

lemma solver_calls_col2: "solver_calls (snd (col2 L ef sd)) = []"
  by (simp add: col2_unfold split: sum.splits prod.splits)

lemma app_pressed:
  "app L tickers_input risk_level max_weight True =
     snd (request L (process_tickers tickers_input) risk_level max_weight) @
     (case fst (request L (process_tickers tickers_input) risk_level max_weight) of
        Inl (Exn msg) \<Rightarrow> [ErrorMessage (''An error occurred: '' @ msg)]
      | Inr _ \<Rightarrow> [])"
  by (simp add: app_def split: prod.splits sum.splits exn.splits)

lemma app_not_pressed: "app L tickers_input risk_level max_weight False = []"
  by (simp add: app_def)

lemmas unfold_run = app_pressed request_unfold col2_unfold Let_def

text \<open>Evaluating a concrete run.\<close>

lemmas table_defs = ffill_table_def bfill_table_def ffill_def isna_def

lemmas eval_defs = app_def request_def col1_def col2_def step_simps canned_def Let_def
  choose_objective_def bounded_frontier_eq upper_bound_def table_defs

lemma tickers_A_B: "process_tickers ''A,B'' = [''A'', ''B'']"
  by code_simp

lemma tickers_A: "process_tickers ''A'' = [''A'']"
  by code_simp


section \<open>The claims\<close>

subsection \<open>Request parameters\<close>

lemma bounds_hold_iff:
  "list_all (\<lambda>c. holds c w) (ef_constraints (bounded_frontier mu S max_weight))
     \<longleftrightarrow> (\<forall>x\<in>set w. 0 \<le> x \<and> x \<le> real_of_int max_weight / 100)"
  by (auto simp: bounded_frontier_eq upper_bound_def list_all_iff)

lemma slider_bound:
  "slider_range max_weight \<longrightarrow> 1 / 10 \<le> upper_bound max_weight \<and> upper_bound max_weight \<le> 1"
  by (simp add: slider_range_def upper_bound_def)

text \<open>
  C9. The ticker input is split on commas (the pieces joined by commas give the input
  back, there is one piece more than there are commas, and no piece holds a comma); each
  piece is trimmed (only whitespace is removed, from both ends, and none is left at
  either end) and upper-cased (no lower-case letter is left, and inputs that differ only
  in case give the same tickers). The slider's integer \<open>max_weight\<close>, between 10 and 100,
  becomes the bound \<open>max_weight / 100\<close>, between 0.1 and 1, and the two constraints hold of
  a weight vector exactly when every weight lies between 0 and that one bound.
\<close>

theorem tickers_split_trimmed_uppercased:
  "process_tickers s = map (\<lambda>t. upper (strip t)) (split_comma s)
   \<and> join_comma (split_comma s) = s
   \<and> length (process_tickers s) = Suc (count_list s CHR '','')
   \<and> (\<forall>t\<in>set (split_comma s).
         CHR '','' \<notin> set t
         \<and> (\<exists>l r. t = l @ strip t @ r \<and> list_all isspace l \<and> list_all isspace r)
         \<and> (strip t = [] \<or> (\<not> isspace (hd (strip t)) \<and> \<not> isspace (last (strip t)))))
   \<and> (\<forall>t\<in>set (process_tickers s). \<forall>c\<in>set t. \<not> islower c)
   \<and> (\<forall>s'. upper s' = upper s \<longrightarrow> process_tickers s' = process_tickers s)
   \<and> upper_bound max_weight = real_of_int max_weight / 100
   \<and> (slider_range max_weight \<longrightarrow> 1 / 10 \<le> upper_bound max_weight \<and> upper_bound max_weight \<le> 1)
   \<and> ef_constraints (bounded_frontier mu S max_weight) = [Lower 0, Upper (upper_bound max_weight)]
   \<and> (list_all (\<lambda>c. holds c w) (ef_constraints (bounded_frontier mu S max_weight))
        \<longleftrightarrow> (\<forall>x\<in>set w. 0 \<le> x \<and> x \<le> real_of_int max_weight / 100))"
proof (intro conjI ballI allI impI)
  show "process_tickers s = map (\<lambda>t. upper (strip t)) (split_comma s)"
    by (simp add: process_tickers_def)
  show "join_comma (split_comma s) = s"
    by (rule join_split_comma)
  show "length (process_tickers s) = Suc (count_list s CHR '','')"
    by (simp add: process_tickers_def length_split_comma)
  show "upper_bound max_weight = real_of_int max_weight / 100"
    by (rule upper_bound_def)
  show "ef_constraints (bounded_frontier mu S max_weight) = [Lower 0, Upper (upper_bound max_weight)]"
    by (simp add: bounded_frontier_eq)
  show "list_all (\<lambda>c. holds c w) (ef_constraints (bounded_frontier mu S max_weight))
        \<longleftrightarrow> (\<forall>x\<in>set w. 0 \<le> x \<and> x \<le> real_of_int max_weight / 100)"
    by (rule bounds_hold_iff)
next
  fix t assume "t \<in> set (split_comma s)"
  then show "CHR '','' \<notin> set t"
    by (rule split_comma_no_comma)
  show "\<exists>l r. t = l @ strip t @ r \<and> list_all isspace l \<and> list_all isspace r"
    by (rule strip_decomp)
  show "strip t = [] \<or> (\<not> isspace (hd (strip t)) \<and> \<not> isspace (last (strip t)))"
    by (rule strip_ends)
next
  fix t c assume "t \<in> set (process_tickers s)" "c \<in> set t"
  then show "\<not> islower c"
    by (rule process_tickers_no_lower)
next
  fix s' assume "upper s' = upper s"
  then show "process_tickers s' = process_tickers s"
    by (rule process_tickers_case_insensitive)
next
  assume "slider_range max_weight"
  then show "1 / 10 \<le> upper_bound max_weight" "upper_bound max_weight \<le> 1"
    using slider_bound by blast+
qed

theorem tickers_split_trimmed_uppercased_witness:
  "process_tickers ''gs, Jpm ,spy'' = [''GS'', ''JPM'', ''SPY'']
   \<and> process_tickers ''GS, JPM ,SPY'' = [''GS'', ''JPM'', ''SPY'']
   \<and> slider_range 40 \<and> upper_bound 40 = 2 / 5
   \<and> list_all (\<lambda>c. holds c [2 / 5, 2 / 5, 1 / 5]) (ef_constraints (bounded_frontier [] [] 40))"
proof -
  have u: "upper ''gs, Jpm ,spy'' = upper ''GS, JPM ,SPY''"
    by code_simp
  have p: "process_tickers ''GS, JPM ,SPY'' = [''GS'', ''JPM'', ''SPY'']"
    by code_simp
  have r: "slider_range 40"
    by (simp add: slider_range_def)
  have b: "\<forall>x\<in>set [2 / 5, 2 / 5, 1 / 5 :: real]. 0 \<le> x \<and> x \<le> real_of_int 40 / 100"
    by simp
  note t = tickers_split_trimmed_uppercased [of "''GS, JPM ,SPY''" 40 "[]" "[]" "[2 / 5, 2 / 5, 1 / 5]"]
  from t u have "process_tickers ''gs, Jpm ,spy'' = process_tickers ''GS, JPM ,SPY''"
    by blast
  moreover from t have "upper_bound 40 = 2 / 5" by simp
  moreover from t b
  have "list_all (\<lambda>c. holds c [2 / 5, 2 / 5, 1 / 5]) (ef_constraints (bounded_frontier [] [] 40))"
    by blast
  ultimately show ?thesis using p r by simp
qed

subsection \<open>Gap filling\<close>

text \<open>
  C10. The table handed to the estimators is the downloaded one, forward filled and then
  backward filled, column by column, and nothing between the download and the estimation
  can raise. Filling keeps the length of a column and every observed price; a column with
  at least one observed price has no missing value left; a column with no observed price
  stays entirely missing and is passed on as it is.
\<close>

theorem gaps_filled_forward_then_backward:
  assumes "download L tickers = Inr data"
  shows "take 2 (snd (request L tickers risk_level max_weight)) =
           [CallDownload tickers, CallMeanHistoricalReturn (bfill_table (ffill_table data))]
         \<and> map fst (bfill_table (ffill_table data)) = map fst data
         \<and> map snd (bfill_table (ffill_table data)) = map (\<lambda>col. bfill (ffill col)) (map snd data)
         \<and> (\<forall>col. length (bfill (ffill col)) = length col
                \<and> (\<forall>i<length col. \<not> isna (col ! i) \<longrightarrow> bfill (ffill col) ! i = col ! i)
                \<and> ((\<exists>x\<in>set col. \<not> isna x) \<longrightarrow> (\<forall>y\<in>set (bfill (ffill col)). \<not> isna y))
                \<and> ((\<forall>x\<in>set col. isna x) \<longrightarrow> bfill (ffill col) = col))"
proof -
  have 1: "take 2 (snd (request L tickers risk_level max_weight)) =
           [CallDownload tickers, CallMeanHistoricalReturn (bfill_table (ffill_table data))]"
    using assms by (simp add: request_unfold Let_def split: sum.splits)
  have 2: "map fst (bfill_table (ffill_table data)) = map fst data"
    by (simp add: bfill_table_def ffill_table_def case_prod_unfold)
  have 3: "map snd (bfill_table (ffill_table data)) = map (\<lambda>col. bfill (ffill col)) (map snd data)"
    by (simp add: bfill_table_def ffill_table_def case_prod_unfold)
  have 4: "length (bfill (ffill col)) = length col" for col
    by (simp add: length_bfill ffill_def length_ffill_from)
  show ?thesis
    using 1 2 3 4 fill_keeps fill_no_na fill_all_na by blast
qed

theorem gaps_filled_forward_then_backward_witness:
  "take 2 (snd (request (canned [(''A'', [NaN, Num 1, NaN, Num 2, NaN]),
                                  (''B'', [NaN, NaN, NaN, NaN, NaN])]
                           (Inl (Exn ''no solution'')) (Inr []) (Inr (Num 0, Num 0, NaN)))
                   [''A'', ''B''] ''Medium'' 40)) =
     [CallDownload [''A'', ''B''],
      CallMeanHistoricalReturn
        [(''A'', [Num 1, Num 1, Num 1, Num 2, Num 2]), (''B'', [NaN, NaN, NaN, NaN, NaN])]]
   \<and> bfill (ffill [NaN, Num 1, NaN, Num 2, NaN]) = [Num 1, Num 1, Num 1, Num 2, Num 2]
   \<and> ffill (bfill [NaN, Num 1, NaN, Num 2, NaN]) = [Num 1, Num 1, Num 2, Num 2, Num 2]
   \<and> NaN \<notin> set (bfill (ffill [NaN, Num 1, NaN, Num 2, NaN]))
   \<and> bfill (ffill [NaN, NaN, NaN, NaN, NaN]) = [NaN, NaN, NaN, NaN, NaN]"
proof -
  let ?data = "[(''A'', [NaN, Num 1, NaN, Num 2, NaN]), (''B'', [NaN, NaN, NaN, NaN, NaN])]"
  let ?L = "canned ?data (Inl (Exn ''no solution'')) (Inr []) (Inr (Num 0, Num 0, NaN))"
  have d: "download ?L [''A'', ''B''] = Inr ?data"
    by (simp add: canned_def)
  have e: "bfill (ffill [NaN, Num 1, NaN, Num 2, NaN]) = [Num 1, Num 1, Num 1, Num 2, Num 2]"
          "ffill (bfill [NaN, Num 1, NaN, Num 2, NaN]) = [Num 1, Num 1, Num 2, Num 2, Num 2]"
    by (simp_all add: ffill_def isna_def)
  have t: "bfill_table (ffill_table ?data) =
            [(''A'', [Num 1, Num 1, Num 1, Num 2, Num 2]), (''B'', [NaN, NaN, NaN, NaN, NaN])]"
    by (simp add: bfill_table_def ffill_table_def ffill_def isna_def)
  have o: "\<exists>x\<in>set [NaN, Num 1, NaN, Num 2, NaN]. \<not> isna x"
    by (simp add: isna_def)
  have a: "\<forall>x\<in>set [NaN, NaN, NaN, NaN, NaN]. isna x"
    by (simp add: isna_def)
  note g = gaps_filled_forward_then_backward [OF d, of "''Medium''" 40]
  from g o have "\<forall>y\<in>set (bfill (ffill [NaN, Num 1, NaN, Num 2, NaN])). \<not> isna y"
    by blast
  then have n: "NaN \<notin> set (bfill (ffill [NaN, Num 1, NaN, Num 2, NaN]))"
    unfolding isna_def by blast
  from g a have b: "bfill (ffill [NaN, NaN, NaN, NaN, NaN]) = [NaN, NaN, NaN, NaN, NaN]"
    by blast
  from g have "take 2 (snd (request ?L [''A'', ''B''] ''Medium'' 40)) =
       [CallDownload [''A'', ''B''], CallMeanHistoricalReturn (bfill_table (ffill_table ?data))]"
    by blast
  with t e n b show ?thesis by simp
qed

subsection \<open>Choice of the objective\<close>

text \<open>
  C2. Once the data and the estimates are there, the request makes exactly one solver
  call: the library's \<^verbatim>\<open>min_volatility\<close> for the risk level Low, \<^verbatim>\<open>max_sharpe\<close> for
  High and \<^verbatim>\<open>max_quadratic_utility\<close> for Medium (and for any other value), each with
  the library's defaults, and always on the same object: the estimates with the two bound
  constraints \<open>0 \<le> w\<close> and \<open>w \<le> max_weight / 100\<close>.
\<close>

theorem risk_level_selects_objective:
  assumes "download L tickers = Inr data"
    and "mean_historical_return L (bfill_table (ffill_table data)) = Inr mu"
    and "sample_cov L (bfill_table (ffill_table data)) = Inr S"
    and "efficient_frontier L mu S = Inr ()"
  shows "solver_calls (snd (request L tickers risk_level max_weight)) =
           [(choose_objective risk_level,
             \<lparr>ef_mu = mu, ef_S = S,
              ef_constraints = [Lower 0, Upper (upper_bound max_weight)], ef_weights = None\<rparr>)]
         \<and> choose_objective ''Low'' = MinVolatility
         \<and> choose_objective ''High'' = MaxSharpe
         \<and> choose_objective ''Medium'' = MaxQuadraticUtility
         \<and> map choose_objective risk_options = [MinVolatility, MaxQuadraticUtility, MaxSharpe]
         \<and> (risk_level \<noteq> ''Low'' \<and> risk_level \<noteq> ''High''
              \<longrightarrow> choose_objective risk_level = MaxQuadraticUtility)"
proof -
  have "solver_calls (snd (request L tickers risk_level max_weight)) =
          [(choose_objective risk_level, bounded_frontier mu S max_weight)]"
    using assms
    by (simp add: request_unfold Let_def solver_calls_col2 split: sum.splits)
  then show ?thesis
    by (simp add: bounded_frontier_eq choose_objective_def risk_options_def)
qed

theorem risk_level_selects_objective_witness:
  "solver_calls (snd (request (canned [(''A'', [Num 1, Num 2])] (Inl (Exn ''stop'')) (Inr [])
                                 (Inr (Num 0, Num 0, NaN)))
                         [''A''] ''Medium'' 40)) =
     [(MaxQuadraticUtility,
       \<lparr>ef_mu = [(''A'', Num 0)], ef_S = [],
        ef_constraints = [Lower 0, Upper (2 / 5)], ef_weights = None\<rparr>)]
   \<and> choose_objective ''Medium'' = MaxQuadraticUtility"
proof -
  let ?L = "canned [(''A'', [Num 1, Num 2])] (Inl (Exn ''stop'')) (Inr []) (Inr (Num 0, Num 0, NaN))"
  have t: "bfill_table (ffill_table [(''A'', [Num 1, Num 2])]) = [(''A'', [Num 1, Num 2])]"
    by (simp add: table_defs)
  have d: "download ?L [''A''] = Inr [(''A'', [Num 1, Num 2])]"
    by (simp add: canned_def)
  have m: "mean_historical_return ?L (bfill_table (ffill_table [(''A'', [Num 1, Num 2])]))
             = Inr [(''A'', Num 0)]"
    by (simp add: canned_def t)
  have c: "sample_cov ?L (bfill_table (ffill_table [(''A'', [Num 1, Num 2])])) = Inr []"
    by (simp add: canned_def)
  have e: "efficient_frontier ?L [(''A'', Num 0)] [] = Inr ()"
    by (simp add: canned_def)
  have n: "''Medium'' \<noteq> ''Low'' \<and> ''Medium'' \<noteq> ''High''"
    by simp
  show ?thesis
    using risk_level_selects_objective [OF d m c e, of "''Medium''" 40] n
    by (simp add: upper_bound_def)
qed

subsection \<open>No feasibility check before the solver\<close>

text \<open>
  C3 (as amended). The script has no feasibility check of its own. Whatever the number
  of tickers and the bound are, also when the bounds cannot sum to 1, it calls the solver
  once with the two bound constraints as soon as the data and the estimates are there;
  when the solver raises, the run ends with the solver's message behind the prefix
  "An error occurred: ".
\<close>

theorem solver_called_for_every_bound:
  assumes "download L (process_tickers tickers_input) = Inr data"
    and "mean_historical_return L (bfill_table (ffill_table data)) = Inr mu"
    and "sample_cov L (bfill_table (ffill_table data)) = Inr S"
    and "efficient_frontier L mu S = Inr ()"
  shows "solver_calls (app L tickers_input risk_level max_weight True) =
           [(choose_objective risk_level, bounded_frontier mu S max_weight)]
         \<and> (\<forall>msg. solve L (choose_objective risk_level) (bounded_frontier mu S max_weight)
                     = Inl (Exn msg) \<longrightarrow>
              app L tickers_input risk_level max_weight True =
                [CallDownload (process_tickers tickers_input),
                 CallMeanHistoricalReturn (bfill_table (ffill_table data)),
                 CallSampleCov (bfill_table (ffill_table data)),
                 CallEfficientFrontier mu S,
                 CallSolve (choose_objective risk_level) (bounded_frontier mu S max_weight),
                 ErrorMessage (''An error occurred: '' @ msg)])"
  using assms
  by (simp add: unfold_run split: sum.splits prod.splits exn.splits)

theorem solver_called_for_every_bound_witness:
  "real (length (process_tickers ''A,B'')) * upper_bound 10 < 1
   \<and> solver_calls (app (canned [(''A'', [Num 1, Num 2]), (''B'', [Num 3, Num 4])]
                           (Inl (Exn ''infeasible'')) (Inr []) (Inr (Num 0, Num 0, NaN)))
                       ''A,B'' ''High'' 10 True) =
       [(MaxSharpe,
         \<lparr>ef_mu = [(''A'', Num 0), (''B'', Num 0)], ef_S = [],
          ef_constraints = [Lower 0, Upper (1 / 10)], ef_weights = None\<rparr>)]
   \<and> last (app (canned [(''A'', [Num 1, Num 2]), (''B'', [Num 3, Num 4])]
                   (Inl (Exn ''infeasible'')) (Inr []) (Inr (Num 0, Num 0, NaN)))
               ''A,B'' ''High'' 10 True) = ErrorMessage ''An error occurred: infeasible''"
proof -
  let ?data = "[(''A'', [Num 1, Num 2]), (''B'', [Num 3, Num 4])]"
  let ?L = "canned ?data (Inl (Exn ''infeasible'')) (Inr []) (Inr (Num 0, Num 0, NaN))"
  have t: "bfill_table (ffill_table ?data) = ?data"
    by (simp add: table_defs)
  have d: "download ?L (process_tickers ''A,B'') = Inr ?data"
    by (simp add: canned_def)
  have m: "mean_historical_return ?L (bfill_table (ffill_table ?data))
             = Inr [(''A'', Num 0), (''B'', Num 0)]"
    by (simp add: canned_def t)
  have c: "sample_cov ?L (bfill_table (ffill_table ?data)) = Inr []"
    by (simp add: canned_def)
  have e: "efficient_frontier ?L [(''A'', Num 0), (''B'', Num 0)] [] = Inr ()"
    by (simp add: canned_def)
  have s: "solve ?L (choose_objective ''High'') (bounded_frontier [(''A'', Num 0), (''B'', Num 0)] [] 10)
             = Inl (Exn ''infeasible'')"
    by (simp add: canned_def)
  have n: "real (length (process_tickers ''A,B'')) * upper_bound 10 < 1"
    by (simp add: tickers_A_B upper_bound_def)
  show ?thesis
    using solver_called_for_every_bound [OF d m c e, of "''High''" 10] s n
    by (simp add: bounded_frontier_eq upper_bound_def choose_objective_def)
qed

text \<open>
  The claim as it was stated fails: with two tickers and the bound 0.4 the bounds cannot
  sum to 1, and the run still calls the solver; what is shown is the solver's own error.
\<close>

theorem solver_called_when_bounds_infeasible:
  "real (length (process_tickers ''A,B'')) * upper_bound 40 < 1
   \<and> app (canned [(''A'', [Num 1, Num 2]), (''B'', [Num 3, Num 4])]
             (Inl (Exn ''infeasible'')) (Inr []) (Inr (Num 0, Num 0, NaN)))
         ''A,B'' ''Low'' 40 True =
       [CallDownload [''A'', ''B''],
        CallMeanHistoricalReturn [(''A'', [Num 1, Num 2]), (''B'', [Num 3, Num 4])],
        CallSampleCov [(''A'', [Num 1, Num 2]), (''B'', [Num 3, Num 4])],
        CallEfficientFrontier [(''A'', Num 0), (''B'', Num 0)] [],
        CallSolve MinVolatility
          \<lparr>ef_mu = [(''A'', Num 0), (''B'', Num 0)], ef_S = [],
           ef_constraints = [Lower 0, Upper (2 / 5)], ef_weights = None\<rparr>,
        ErrorMessage ''An error occurred: infeasible'']"
  by (simp add: eval_defs tickers_A_B)

subsection \<open>Weight cleaning\<close>




subsection \<open>Performance metrics\<close>

text \<open>
  C5 (as amended). The three scalars shown are exactly the triple that the library's
  \<^verbatim>\<open>portfolio_performance\<close> returns for the optimiser object holding the solver's raw
  weights; the script does not look at the volatility, so a triple with volatility zero
  is shown like any other. Only when the library call itself raises does the run end
  with that exception's message, and then no metrics are shown.
\<close>

theorem performance_rendered_as_returned:
  assumes "CallPortfolioPerformance ef \<in> set (app L tickers_input risk_level max_weight pressed)"
  shows "(\<forall>r v s. portfolio_performance L ef = Inr (r, v, s) \<longrightarrow>
            MetricsTable r v s \<in> set (app L tickers_input risk_level max_weight pressed)
            \<and> (\<forall>r' v' s'. MetricsTable r' v' s'
                    \<in> set (app L tickers_input risk_level max_weight pressed)
                  \<longrightarrow> r' = r \<and> v' = v \<and> s' = s))
         \<and> (\<forall>msg. portfolio_performance L ef = Inl (Exn msg) \<longrightarrow>
              last (app L tickers_input risk_level max_weight pressed) =
                ErrorMessage (''An error occurred: '' @ msg)
              \<and> (\<forall>r v s. MetricsTable r v s
                    \<notin> set (app L tickers_input risk_level max_weight pressed)))
         \<and> (\<exists>w. ef_weights ef = Some w
                \<and> solve L (choose_objective risk_level) (ef\<lparr>ef_weights := None\<rparr>) = Inr w)"
proof (cases pressed)
  case False
  with assms show ?thesis by (simp add: app_not_pressed)
next
  case True
  with assms show ?thesis
    by (auto simp: unfold_run bounded_frontier_eq split: sum.splits prod.splits exn.splits)
qed

theorem performance_rendered_as_returned_witness:
  "MetricsTable (Num (1 / 10)) (Num 0) PInf
     \<in> set (app (canned [(''A'', [Num 1, Num 2]), (''B'', [Num 3, Num 4])] (Inr [Num 1, Num 0])
                   (Inr [(''A'', Num 1), (''B'', Num 0)]) (Inr (Num (1 / 10), Num 0, PInf)))
               ''A,B'' ''High'' 100 True)"
proof -
  let ?data = "[(''A'', [Num 1, Num 2]), (''B'', [Num 3, Num 4])]"
  let ?L = "canned ?data (Inr [Num 1, Num 0]) (Inr [(''A'', Num 1), (''B'', Num 0)])
              (Inr (Num (1 / 10), Num 0, PInf))"
  let ?ef = "\<lparr>ef_mu = [(''A'', Num 0), (''B'', Num 0)], ef_S = [],
              ef_constraints = [Lower 0, Upper 1], ef_weights = Some [Num 1, Num 0]\<rparr>"
  have c: "CallPortfolioPerformance ?ef \<in> set (app ?L ''A,B'' ''High'' 100 True)"
    by (simp add: eval_defs tickers_A_B)
  have p: "portfolio_performance ?L ?ef = Inr (Num (1 / 10), Num 0, PInf)"
    by (simp add: canned_def)
  show ?thesis
    using performance_rendered_as_returned [OF c] p by blast
qed

text \<open>
  The claim as it was stated fails: a single asset with a constant price, for which the
  library reports volatility zero, is rendered with its metrics and no error is shown.
\<close>

theorem zero_volatility_is_rendered:
  "app (canned [(''A'', [Num 5, Num 5, Num 5])] (Inr [Num 1]) (Inr [(''A'', Num 1)])
          (Inr (Num 0, Num 0, NaN)))
      ''A'' ''Low'' 100 True =
     [CallDownload [''A''],
      CallMeanHistoricalReturn [(''A'', [Num 5, Num 5, Num 5])],
      CallSampleCov [(''A'', [Num 5, Num 5, Num 5])],
      CallEfficientFrontier [(''A'', Num 0)] [],
      CallSolve MinVolatility
        \<lparr>ef_mu = [(''A'', Num 0)], ef_S = [],
         ef_constraints = [Lower 0, Upper 1], ef_weights = None\<rparr>,
      CallCleanWeights
        \<lparr>ef_mu = [(''A'', Num 0)], ef_S = [],
         ef_constraints = [Lower 0, Upper 1], ef_weights = Some [Num 1]\<rparr>,
      Subheader ''Optimal Portfolio Allocation'',
      WeightsTable [(''A'', Num 1)],
      PieChart [(''A'', Num 1)],
      CallPortfolioPerformance
        \<lparr>ef_mu = [(''A'', Num 0)], ef_S = [],
         ef_constraints = [Lower 0, Upper 1], ef_weights = Some [Num 1]\<rparr>,
      Subheader ''Expected Performance (Annualized)'',
      MetricsTable (Num 0) (Num 0) NaN,
      Subheader ''Historical Performance'',
      CallNormalize [(''A'', [Num 5, Num 5, Num 5])],
      LineChart [(''A'', [Num 5, Num 5, Num 5])]]"
  by (simp add: eval_defs tickers_A)

subsection \<open>Errors\<close>



end
